theory Spec2Isabelle
  imports Main
begin

section \<open>Data model of \<open>denops/@ddc-sources/nvim-lsp.ts\<close>\<close>

text \<open>
  A JavaScript string is a sequence of code units; the model writes it as a HOL
  \<open>string\<close> and reads every \<open>char\<close> as one code unit. Only the two line-ending units
  are ever inspected by the source.
\<close>

definition LF :: char where
  "LF = CHR 0x0A"

definition CR :: char where
  "CR = CHR 0x0D"

text \<open>Exceptions of the source: \<open>DeadlineError\<close> is the one class \<open>request\<close> tells apart.\<close>

datatype error = DeadlineError | SyntaxError | HostError string

text \<open>A parsed JSON value, as far as the \<open>data\<close> field of a completion item is inspected.\<close>

datatype json =
    JNull
  | JBool bool
  | JNumber int
  | JString string
  | JArray "json list"
  | JObject "(string \<times> json) list"

datatype markup_kind = PlainText | Markdown

record markup_content =
  mc_kind :: markup_kind
  mc_value :: string

datatype documentation = DocString string | DocMarkup markup_content

record text_edit =
  te_start :: "nat \<times> nat"
  te_end :: "nat \<times> nat"
  te_newText :: string

text \<open>\<open>LSP.CompletionItem\<close>: the fields this file reads; an optional field is an option.\<close>

record lsp_item =
  label :: string
  kind :: "int option"
  detail :: "string option"
  documentation :: "documentation option"
  insertText :: "string option"
  additionalTextEdits :: "text_edit list option"
  data :: "json option"

datatype offset_encoding = Utf8 | Utf16 | Utf32

text \<open>\<open>UserData\<close>\<close>

record user_data =
  lspitem :: string
  clientId :: nat
  offsetEncoding :: offset_encoding
  resolvable :: bool
  lineOnRequest :: string
  requestCharacter :: int
  suggestCharacter :: int

text \<open>\<open>Item<UserData>\<close> of the completion engine: the word and the optional payload.\<close>

record item =
  word :: string
  user_data :: "user_data option"

datatype previewer = EmptyPreviewer | MarkdownPreviewer "string list"

section \<open>Host interface\<close>

datatype confirm_behavior = Insert | Replace

text \<open>\<open>snippetEngine\<close> is the id of a registered callback or a function value.\<close>

datatype snippet_engine = CallbackId string | CallbackFunction

text \<open>\<open>Params\<close>\<close>

record params =
  snippetEngine :: snippet_engine
  enableResolveItem :: bool
  enableAdditionalTextEdit :: bool
  confirmBehavior :: confirm_behavior
  snippetIndicator :: string

text \<open>\<open>Source.params\<close>: the defaults.\<close>

definition default_params :: params where
  "default_params =
     \<lparr>snippetEngine = CallbackId [],
      enableResolveItem = False,
      enableAdditionalTextEdit = False,
      confirmBehavior = Insert,
      snippetIndicator = ''~''\<rparr>"

text \<open>\<open>CompletionTriggerKind\<close> and the \<open>context\<close> member of \<open>CompletionParams\<close>.\<close>

datatype trigger_kind = Invoked | TriggerCharacter | TriggerForIncompleteCompletions

record completion_context =
  triggerKind :: trigger_kind
  triggerCharacter :: "string option"

text \<open>What \<open>vim.lsp.util.make_position_params()\<close> returns, and the same with a context.\<close>

record position_params =
  textDocument :: string
  position :: "nat \<times> nat"

record completion_params = position_params +
  "context" :: completion_context

text \<open>
  Every call the source makes on the host (\<open>denops\<close>) or on the \<open>CompletionItem\<close>
  helper that edits the buffer, in the order it makes them.
\<close>

datatype host_call =
    EvalCompletedItemWord
  | LineContextCreate
  | CallResolve nat lsp_item
  | CmdUndoBreak
  | CallConfirm lsp_item lsp_item user_data params
  | CallSkipNextComplete
  | FiletypeGet
  | CallParseSnippet string
  | CallMakePositionParams
  | CallRequest nat completion_params

text \<open>
  The calls that change the buffer or its undo state: the undo break and
  \<open>CompletionItem.confirm\<close>, which applies the text edits.
\<close>

fun mutates_buffer :: "host_call \<Rightarrow> bool" where
  "mutates_buffer CmdUndoBreak = True"
| "mutates_buffer (CallConfirm l u d p) = True"
| "mutates_buffer c = False"

text \<open>
  The static helpers of \<open>completion_item.ts\<close> used by \<open>onCompleteDone\<close> and
  \<open>getPreviewer\<close>. Their bodies are outside the file modelled here; they are
  parameters of the model.
\<close>

record helpers =
  getInsertText :: "lsp_item \<Rightarrow> string"
  isReplace :: "lsp_item \<Rightarrow> confirm_behavior \<Rightarrow> int \<Rightarrow> int \<Rightarrow> bool"

section \<open>String slicing\<close>

text \<open>
  \<open>s.slice(start, end)\<close>: a negative index counts from the end, both indices are
  clamped to the string, and an empty range gives the empty string.
\<close>

definition js_slice :: "'a list \<Rightarrow> int \<Rightarrow> int \<Rightarrow> 'a list" where
  "js_slice s start end =
     (let len = int (length s);
          from = (if start < 0 then max (len + start) 0 else min start len);
          to = (if end < 0 then max (len + end) 0 else min end len)
      in take (nat (to - from)) (drop (nat from) s))"

text \<open>\<open>s.slice(start)\<close>: the end defaults to the length.\<close>

definition js_slice_from :: "'a list \<Rightarrow> int \<Rightarrow> 'a list" where
  "js_slice_from s start = js_slice s start (int (length s))"

section \<open>Line splitting\<close>

text \<open>\<open>str.replaceAll(/\r\n?/g, "\n")\<close>\<close>

fun replace_eol :: "string \<Rightarrow> string" where
  "replace_eol [] = []"
| "replace_eol (c # cs) =
     (if c = CR then
        (case cs of
           [] \<Rightarrow> [LF]
         | d # ds \<Rightarrow> if d = LF then LF # replace_eol ds else LF # replace_eol cs)
      else c # replace_eol cs)"

text \<open>\<open>str.split("\n")\<close>: the pieces between line feeds; the empty string gives one empty piece.\<close>

fun split_lf :: "string \<Rightarrow> string list" where
  "split_lf [] = [[]]"
| "split_lf (c # cs) =
     (if c = LF then [] # split_lf cs
      else (case split_lf cs of [] \<Rightarrow> [[c]] | l # ls \<Rightarrow> (c # l) # ls))"

definition splitLines :: "string \<Rightarrow> string list" where
  "splitLines str = split_lf (replace_eol str)"

section \<open>Resolution\<close>

text \<open>
  \<open>Source.resolve\<close>: one call of the host's resolve facility; a \<open>null\<close> answer
  (\<open>None\<close>) leaves the item as it was (\<open>resolvedItem ?? lspItem\<close>), an exception of
  the call propagates.
\<close>

definition resolve ::
  "(error + lsp_item option) \<Rightarrow> nat \<Rightarrow> lsp_item \<Rightarrow> (error + lsp_item) \<times> host_call list" where
  "resolve reply cid lspItem =
     (case reply of
        Inl e \<Rightarrow> (Inl e, [CallResolve cid lspItem])
      | Inr None \<Rightarrow> (Inr lspItem, [CallResolve cid lspItem])
      | Inr (Some resolvedItem) \<Rightarrow> (Inr resolvedItem, [CallResolve cid lspItem]))"

section \<open>Confirmation: \<open>onCompleteDone\<close>\<close>

text \<open>\<open>LineContext\<close>: the text of the cursor line and the cursor's character offset.\<close>

record line_context =
  lc_text :: string
  lc_character :: int

text \<open>
  What the host answers during one \<open>onCompleteDone\<close>: \<open>v:completed_item.word\<close>, the
  line context, the answer of the resolve facility, and what \<open>JSON.parse\<close> makes of a
  stored payload (\<open>None\<close> where it throws).
\<close>

record confirm_host =
  completed_word :: string
  line_ctx :: line_context
  confirm_resolve_reply :: "error + lsp_item option"
  confirm_parse :: "string \<Rightarrow> lsp_item option"

text \<open>The condition of the \<open>if\<close> at lines 212 to 222; a defined array is truthy.\<close>

definition needs_confirm ::
  "helpers \<Rightarrow> string \<Rightarrow> lsp_item \<Rightarrow> user_data \<Rightarrow> params \<Rightarrow> bool" where
  "needs_confirm h itemWord lspItem userData ps =
     (getInsertText h lspItem \<noteq> itemWord \<or>
      (enableAdditionalTextEdit ps \<and> additionalTextEdits lspItem \<noteq> None) \<or>
      isReplace h lspItem (confirmBehavior ps)
        (suggestCharacter userData) (requestCharacter userData))"

text \<open>
  Lines 207 to 209: the item the decision is made on. An exception of \<open>JSON.parse\<close>
  or of the resolve call ends \<open>onCompleteDone\<close>; the calls after the decision are taken
  to return.
\<close>

definition fetch_item ::
  "confirm_host \<Rightarrow> user_data \<Rightarrow> params \<Rightarrow> lsp_item \<Rightarrow> (error + lsp_item) \<times> host_call list" where
  "fetch_item host userData ps unresolvedItem =
     (if enableResolveItem ps
      then resolve (confirm_resolve_reply host) (clientId userData) unresolvedItem
      else (Inr unresolvedItem, []))"

definition onCompleteDone ::
  "helpers \<Rightarrow> confirm_host \<Rightarrow> user_data \<Rightarrow> params \<Rightarrow> (error + unit) \<times> host_call list" where
  "onCompleteDone h host userData ps =
     (let itemWord = completed_word host;
          ctx = line_ctx host;
          reads = [EvalCompletedItemWord, LineContextCreate]
      in if js_slice (lc_text ctx) (suggestCharacter userData) (lc_character ctx) \<noteq> itemWord
         then (Inr (), reads)
         else
           (case confirm_parse host (lspitem userData) of
              None \<Rightarrow> (Inl SyntaxError, reads)
            | Some unresolvedItem \<Rightarrow>
                (case fetch_item host userData ps unresolvedItem of
                   (Inl e, calls) \<Rightarrow> (Inl e, reads @ calls)
                 | (Inr lspItem, calls) \<Rightarrow>
                     if needs_confirm h itemWord lspItem userData ps
                     then (Inr (), reads @ calls @
                             [CmdUndoBreak,
                              CallConfirm lspItem unresolvedItem userData ps,
                              CallSkipNextComplete])
                     else (Inr (), reads @ calls))))"

section \<open>Preview: \<open>getPreviewer\<close>\<close>

text \<open>\<open>Source.converter\<close>\<close>

fun converter :: "documentation \<Rightarrow> string list" where
  "converter (DocString doc) = splitLines doc"
| "converter (DocMarkup doc) =
     splitLines
       (if mc_kind doc = PlainText
        then ''<text>'' @ [LF] @ mc_value doc @ [LF] @ ''</text>''
        else mc_value doc)"

text \<open>
  The test \<open>u.isObjectOf({tsc: u.isObjectOf({source: u.isString})})\<close> on the
  \<open>data\<close> of the unresolved item, and the string it then reads. An object lists each
  key once.
\<close>

definition tsc_source :: "json option \<Rightarrow> string option" where
  "tsc_source d =
     (case d of
        Some (JObject kvs) \<Rightarrow>
          (case map_of kvs ''tsc'' of
             Some (JObject tsc) \<Rightarrow>
               (case map_of tsc ''source'' of Some (JString src) \<Rightarrow> Some src | _ \<Rightarrow> None)
           | _ \<Rightarrow> None)
      | _ \<Rightarrow> None)"

text \<open>Lines 288 to 294; a string is truthy when it is not empty.\<close>

definition push_detail :: "string \<Rightarrow> lsp_item \<Rightarrow> string list \<Rightarrow> string list" where
  "push_detail filetype lspItem contents =
     (case detail lspItem of
        None \<Rightarrow> contents
      | Some d \<Rightarrow>
          if d = [] then contents
          else contents @ [''```'' @ filetype] @ splitLines d @ [''```''])"

text \<open>Lines 297 to 308.\<close>

definition push_import :: "lsp_item \<Rightarrow> string list \<Rightarrow> string list" where
  "push_import unresolvedItem contents =
     (case tsc_source (data unresolvedItem) of
        None \<Rightarrow> contents
      | Some src \<Rightarrow>
          (if length contents > 0 then contents @ [''---''] else contents)
            @ [''import from `'' @ src @ ''`''])"

text \<open>Lines 311 to 321.\<close>

definition push_documentation :: "lsp_item \<Rightarrow> string list \<Rightarrow> string list" where
  "push_documentation lspItem contents =
     (case documentation lspItem of
        None \<Rightarrow> contents
      | Some doc \<Rightarrow>
          if (case doc of DocString s \<Rightarrow> length s > 0
                        | DocMarkup m \<Rightarrow> length (mc_value m) > 0)
          then (if length contents > 0 then contents @ [''---''] else contents) @ converter doc
          else contents)"

text \<open>
  What the host answers during one \<open>getPreviewer\<close>: the resolve facility, the filetype
  option, \<open>vim.lsp.util.parse_snippet\<close>, and \<open>JSON.parse\<close> as above.
\<close>

record preview_host =
  preview_resolve_reply :: "error + lsp_item option"
  filetype :: string
  parse_snippet :: "string \<Rightarrow> string"
  preview_parse :: "string \<Rightarrow> lsp_item option"

definition getPreviewer ::
  "helpers \<Rightarrow> preview_host \<Rightarrow> item \<Rightarrow> (error + previewer) \<times> host_call list" where
  "getPreviewer h host it =
     (case user_data it of
        None \<Rightarrow> (Inr EmptyPreviewer, [])
      | Some userData \<Rightarrow>
          (case preview_parse host (lspitem userData) of
             None \<Rightarrow> (Inl SyntaxError, [])
           | Some unresolvedItem \<Rightarrow>
               (case resolve (preview_resolve_reply host) (clientId userData) unresolvedItem of
                  (Inl e, calls) \<Rightarrow> (Inl e, calls)
                | (Inr lspItem, calls) \<Rightarrow>
                    if kind lspItem = Some 15
                    then
                      (let snippetText = getInsertText h lspItem;
                           body = parse_snippet host snippetText
                       in (Inr (MarkdownPreviewer
                                 ([''```'' @ filetype host] @ split_lf (replace_eol body)
                                    @ [''```''])),
                           calls @ [FiletypeGet, CallParseSnippet snippetText]))
                    else
                      (let contents = push_detail (filetype host) lspItem [];
                           contents = push_import unresolvedItem contents;
                           contents = push_documentation lspItem contents
                       in (Inr (MarkdownPreviewer contents), calls @ [FiletypeGet])))))"

section \<open>Gathering: \<open>request\<close> and \<open>gather\<close>\<close>

text \<open>\<open>CompletionOptions\<close> of a provider, and \<open>Client\<close>.\<close>

record completion_options =
  triggerCharacters :: "string list option"
  resolveProvider :: "bool option"

record client =
  client_id :: nat
  provider :: completion_options
  client_offsetEncoding :: offset_encoding

text \<open>\<open>LSP.CompletionList\<close> with its optional defaults, and \<open>Result\<close>.\<close>

record item_defaults =
  commitCharacters :: "string list option"
  insertTextFormat :: "int option"

record completion_list =
  isIncomplete :: bool
  itemDefaults :: "item_defaults option"
  items :: "lsp_item list"

datatype result = ResultList completion_list | ResultArray "lsp_item list"

text \<open>The members of \<open>GatherArguments\<close> that \<open>gather\<close> and \<open>request\<close> read.\<close>

record gather_args =
  arg_input :: string
  arg_isIncomplete :: bool
  completePos :: int
  completeStr :: string
  arg_timeout :: nat
  sourceParams :: params

text \<open>
  What the host answers to one provider's request: the position parameters, then either
  a response (\<open>null\<close> is \<open>None\<close>) or an exception; \<open>deadline\<close> raises
  \<open>DeadlineError\<close> when the timeout passes first.
\<close>

record exchange =
  ex_params :: "error + position_params"
  ex_reply :: "error + result option"

text \<open>
  \<open>Source.request\<close>. The position parameters are fetched outside the \<open>try\<close>; inside
  it only an error that is not a \<open>DeadlineError\<close> is thrown again, and after a
  \<open>DeadlineError\<close> the function returns \<open>undefined\<close> (\<open>None\<close>).
\<close>

definition request ::
  "client \<Rightarrow> gather_args \<Rightarrow> exchange \<Rightarrow> (error + result option) \<times> host_call list" where
  "request cl args ex =
     (case ex_params ex of
        Inl e \<Rightarrow> (Inl e, [CallMakePositionParams])
      | Inr ps \<Rightarrow>
          (let trigger = js_slice_from (arg_input args) (- 1);
               ctx = (if (case triggerCharacters (provider cl) of
                            None \<Rightarrow> False
                          | Some cs \<Rightarrow> trigger \<in> set cs)
                      then \<lparr>triggerKind = TriggerCharacter, triggerCharacter = Some trigger\<rparr>
                      else \<lparr>triggerKind = (if arg_isIncomplete args
                                           then TriggerForIncompleteCompletions else Invoked),
                            triggerCharacter = None\<rparr>);
               calls = [CallMakePositionParams,
                        CallRequest (client_id cl) (position_params.extend ps \<lparr>context = ctx\<rparr>)]
           in (case ex_reply ex of
                 Inr r \<Rightarrow> (Inr r, calls)
               | Inl e \<Rightarrow> if e = DeadlineError then (Inr None, calls) else (Inl e, calls))))"

text \<open>
  The object \<open>completionItem\<close> built at lines 99 to 108; its method \<open>toDdcItem\<close>
  belongs to \<open>completion_item.ts\<close>, outside the file modelled here, and is a parameter
  of the model.
\<close>

record completion_item =
  ci_clientId :: nat
  ci_offsetEncoding :: offset_encoding
  ci_resolvable :: bool
  ci_lineOnRequest :: string
  ci_suggestCharacter :: int
  ci_requestCharacter :: int
  ci_cursorLine :: int
  ci_snippetIndicator :: string

type_synonym normalizer = "completion_item \<Rightarrow> lsp_item \<Rightarrow> item_defaults option \<Rightarrow> item option"

text \<open>
  What stays fixed during one cycle: the normaliser, the snapshot of the line
  (\<open>fn.getline\<close>), the zero-based cursor line (\<open>fn.line\<close> minus one), the arguments.
  These reads and the list of clients are inputs of the model.
\<close>

record cycle =
  toDdcItem :: normalizer
  cy_lineOnRequest :: string
  cy_cursorLine :: int
  cy_args :: gather_args

text \<open>The state the provider callbacks share: \<open>#item_cache\<close> and the local \<open>isIncomplete\<close>.\<close>

record gstate =
  item_cache :: "nat \<rightharpoonup> item list"
  incomplete :: bool

text \<open>\<open>Array.isArray(result) ? { items: result, isIncomplete: false } : result\<close>\<close>

fun completionList :: "result \<Rightarrow> completion_list" where
  "completionList (ResultArray xs) = \<lparr>isIncomplete = False, itemDefaults = None, items = xs\<rparr>"
| "completionList (ResultList l) = l"

text \<open>Lines 99 to 118: the normalised items of one response.\<close>

definition normalize :: "cycle \<Rightarrow> client \<Rightarrow> result \<Rightarrow> item list" where
  "normalize k cl res =
     (let completionItem =
            \<lparr>ci_clientId = client_id cl,
             ci_offsetEncoding = client_offsetEncoding cl,
             ci_resolvable = (resolveProvider (provider cl) = Some True),
             ci_lineOnRequest = cy_lineOnRequest k,
             ci_suggestCharacter = completePos (cy_args k),
             ci_requestCharacter = completePos (cy_args k) + int (length (completeStr (cy_args k))),
             ci_cursorLine = cy_cursorLine k,
             ci_snippetIndicator = snippetIndicator (sourceParams (cy_args k))\<rparr>
      in List.map_filter
           (\<lambda>lspItem. toDdcItem k completionItem lspItem (itemDefaults (completionList res)))
           (items (completionList res)))"

text \<open>
  One provider's callback of \<open>clients.map\<close> runs in two parts. The first is
  synchronous, while \<open>map\<close> runs: the cache is looked up (an array, even an empty one,
  is truthy) and otherwise the request starts.
\<close>

datatype task = Cached "item list" | Requested client "error + result option"

definition start_task ::
  "(nat \<rightharpoonup> item list) \<Rightarrow> gather_args \<Rightarrow> client \<times> exchange \<Rightarrow> task \<times> host_call list" where
  "start_task cache args p =
     (case cache (client_id (fst p)) of
        Some its \<Rightarrow> (Cached its, [])
      | None \<Rightarrow> (Requested (fst p) (fst (request (fst p) args (snd p))),
                 snd (request (fst p) args (snd p))))"

text \<open>
  The second part runs when the request has settled (lines 95 to 124): it rejects with
  the error of the request, gives no items for \<open>undefined\<close> or \<open>null\<close>, and otherwise
  normalises the response, stores it unless it is incomplete, and folds its flag into
  \<open>isIncomplete\<close>.
\<close>

fun settle_task :: "cycle \<Rightarrow> task \<Rightarrow> gstate \<Rightarrow> error + item list \<times> gstate" where
  "settle_task k (Cached its) s = Inr (its, s)"
| "settle_task k (Requested cl (Inl e)) s = Inl e"
| "settle_task k (Requested cl (Inr None)) s = Inr ([], s)"
| "settle_task k (Requested cl (Inr (Some res))) s =
     (let its = normalize k cl res;
          s = (if \<not> isIncomplete (completionList res)
               then s\<lparr>item_cache := (item_cache s)(client_id cl \<mapsto> its)\<rparr> else s);
          s = s\<lparr>incomplete := (incomplete s \<or> isIncomplete (completionList res))\<rparr>
      in Inr (its, s))"

text \<open>
  \<open>Promise.all\<close> over the callbacks. The requests settle in an order the host decides,
  given as the list of provider indices in settling order; a promise settles once.
  The first rejection rejects the whole: what the callbacks settled before it have
  done to the shared state stays, their items are dropped. The last component of the
  result is the rest of the order: the callbacks that are still pending then.
\<close>

fun promise_all ::
  "cycle \<Rightarrow> task list \<Rightarrow> nat list \<Rightarrow> item list option list \<Rightarrow> gstate
     \<Rightarrow> error option \<times> item list option list \<times> gstate \<times> nat list" where
  "promise_all k tasks [] settled s = (None, settled, s, [])"
| "promise_all k tasks (i # order) settled s =
     (if i < length tasks \<and> i < length settled \<and> settled ! i = None
      then (case settle_task k (tasks ! i) s of
              Inl e \<Rightarrow> (Some e, settled, s, order)
            | Inr (its, s') \<Rightarrow> promise_all k tasks order (settled[i := Some its]) s')
      else promise_all k tasks order settled s)"

text \<open>
  A rejection of \<open>Promise.all\<close> does not stop the callbacks that are still pending:
  each of them resumes when its request settles, after \<open>gather\<close> has returned, and runs
  lines 95 to 124 on the \<open>#item_cache\<close> of that moment. Its own rejection goes nowhere.
\<close>

fun run_pending ::
  "cycle \<Rightarrow> task list \<Rightarrow> nat list \<Rightarrow> item list option list \<Rightarrow> gstate \<Rightarrow> gstate" where
  "run_pending k tasks [] settled s = s"
| "run_pending k tasks (i # order) settled s =
     (if i < length tasks \<and> i < length settled \<and> settled ! i = None
      then (case settle_task k (tasks ! i) s of
              Inl e \<Rightarrow> run_pending k tasks order settled s
            | Inr (its, s') \<Rightarrow> run_pending k tasks order (settled[i := Some its]) s')
      else run_pending k tasks order settled s)"

text \<open>The callbacks of the providers the host lists, started against the cache as it is.\<close>

definition tasks_of :: "cycle \<Rightarrow> (nat \<rightharpoonup> item list) \<Rightarrow> (client \<times> exchange) list \<Rightarrow> task list" where
  "tasks_of k cache ps = map (\<lambda>p. fst (start_task cache (cy_args k) p)) ps"

text \<open>
  Lines 89 to 125: \<open>isIncomplete\<close> starts as \<open>false\<close>, no callback has settled. What
  \<open>Promise.all\<close> leaves when it resolves or rejects, and the callbacks pending then.
\<close>

definition run_providers ::
  "cycle \<Rightarrow> (nat \<rightharpoonup> item list) \<Rightarrow> (client \<times> exchange) list \<Rightarrow> nat list
     \<Rightarrow> error option \<times> item list option list \<times> gstate" where
  "run_providers k cache ps order =
     (case promise_all k (tasks_of k cache ps) order
             (replicate (length ps) None) \<lparr>item_cache = cache, incomplete = False\<rparr> of
        (err, settled, s, rest) \<Rightarrow> (err, settled, s))"

definition pending_callbacks ::
  "cycle \<Rightarrow> (nat \<rightharpoonup> item list) \<Rightarrow> (client \<times> exchange) list \<Rightarrow> nat list \<Rightarrow> nat list" where
  "pending_callbacks k cache ps order =
     (case promise_all k (tasks_of k cache ps) order
             (replicate (length ps) None) \<lparr>item_cache = cache, incomplete = False\<rparr> of
        (err, settled, s, rest) \<Rightarrow> rest)"

text \<open>
  What \<open>gather\<close> leaves: the returned \<open>DdcGatherItems\<close>, the errors handed to
  \<open>printError\<close>, the cache when \<open>gather\<close> returns, and the cache once the callbacks
  that were pending at the return have run, which is the cache a later lookup reads.
\<close>

record gathered =
  gathered_items :: "item list"
  gathered_isIncomplete :: bool
  printed :: "error list"
  cache_after :: "nat \<rightharpoonup> item list"
  cache_later :: "nat \<rightharpoonup> item list"

text \<open>Lines 131 to 133.\<close>

definition clear_cache :: "gstate \<Rightarrow> gstate" where
  "clear_cache s = (if \<not> incomplete s then s\<lparr>item_cache := Map.empty\<rparr> else s)"

text \<open>Lines 131 to 138, and the pending callbacks after them.\<close>

definition finish_cycle ::
  "cycle \<Rightarrow> task list \<Rightarrow> item list option list \<Rightarrow> nat list
     \<Rightarrow> item list \<Rightarrow> error list \<Rightarrow> gstate \<Rightarrow> gathered" where
  "finish_cycle k tasks settled rest its errs s =
     \<lparr>gathered_items = its,
      gathered_isIncomplete = incomplete s,
      printed = errs,
      cache_after = item_cache (clear_cache s),
      cache_later = item_cache (run_pending k tasks rest settled (clear_cache s))\<rparr>"

text \<open>
  \<open>Source.gather\<close>. A rejection of \<open>Promise.all\<close> is caught: the error is printed
  and the items are the empty list. Without a rejection the items are the providers'
  lists in the providers' order, once every provider has settled; \<open>None\<close> when the
  order leaves a provider unsettled, for then \<open>gather\<close> does not return.
\<close>

definition gather ::
  "cycle \<Rightarrow> (nat \<rightharpoonup> item list) \<Rightarrow> (client \<times> exchange) list \<Rightarrow> nat list \<Rightarrow> gathered option" where
  "gather k cache ps order =
     (case run_providers k cache ps order of
        (Some e, settled, s) \<Rightarrow>
          Some (finish_cycle k (tasks_of k cache ps) settled
                  (pending_callbacks k cache ps order) [] [e] s)
      | (None, settled, s) \<Rightarrow>
          if list_all (\<lambda>x. x \<noteq> None) settled
          then Some (finish_cycle k (tasks_of k cache ps) settled
                       (pending_callbacks k cache ps order) (concat (map the settled)) [] s)
          else None)"

section \<open>Notions used to state the properties\<close>

text \<open>A callback that rejects: its request threw an error that was not swallowed.\<close>

fun rejects :: "task \<Rightarrow> bool" where
  "rejects (Requested cl (Inl e)) = True"
| "rejects t = False"

text \<open>The items a callback returns when it does not reject.\<close>

fun contribution :: "cycle \<Rightarrow> task \<Rightarrow> item list" where
  "contribution k (Cached its) = its"
| "contribution k (Requested cl (Inr (Some res))) = normalize k cl res"
| "contribution k (Requested cl r) = []"

text \<open>A callback whose provider answered with an incomplete list.\<close>

fun answers_incomplete :: "task \<Rightarrow> bool" where
  "answers_incomplete (Requested cl (Inr (Some res))) = isIncomplete (completionList res)"
| "answers_incomplete t = False"


text \<open>
  The specification's trigger context. The most recently typed character is the last
  code unit of the input, taken as a string; nothing was typed when the input is empty.
\<close>

definition last_typed :: "string \<Rightarrow> string" where
  "last_typed input = (if input = [] then [] else [last input])"

definition spec_trigger_context :: "string list option \<Rightarrow> string \<Rightarrow> bool \<Rightarrow> completion_context" where
  "spec_trigger_context registered input continuing =
     (if (case registered of None \<Rightarrow> False | Some cs \<Rightarrow> last_typed input \<in> set cs)
      then \<lparr>triggerKind = TriggerCharacter, triggerCharacter = Some (last_typed input)\<rparr>
      else if continuing
      then \<lparr>triggerKind = TriggerForIncompleteCompletions, triggerCharacter = None\<rparr>
      else \<lparr>triggerKind = Invoked, triggerCharacter = None\<rparr>)"

text \<open>
  The specification's three sections of a preview. Detail is present when it is a
  string that is not empty, and so is documentation; plain-text markup goes between the
  markers \<open><text>\<close> and \<open></text>\<close>.
\<close>

definition spec_detail_section :: "string \<Rightarrow> lsp_item \<Rightarrow> string list" where
  "spec_detail_section ft it =
     (case detail it of
        None \<Rightarrow> []
      | Some d \<Rightarrow> if d = [] then [] else [''```'' @ ft] @ splitLines d @ [''```''])"

definition spec_import_section :: "lsp_item \<Rightarrow> string list" where
  "spec_import_section unresolved =
     (case tsc_source (data unresolved) of
        None \<Rightarrow> []
      | Some src \<Rightarrow> [''import from `'' @ src @ ''`''])"

definition spec_documentation_section :: "lsp_item \<Rightarrow> string list" where
  "spec_documentation_section it =
     (case documentation it of
        None \<Rightarrow> []
      | Some (DocString s) \<Rightarrow> if s = [] then [] else splitLines s
      | Some (DocMarkup m) \<Rightarrow>
          if mc_value m = [] then []
          else if mc_kind m = PlainText
          then splitLines (''<text>'' @ [LF] @ mc_value m @ [LF] @ ''</text>'')
          else splitLines (mc_value m))"

section \<open>Example inputs\<close>

text \<open>A candidate, its stored payload, and a parser that knows this payload.\<close>

definition console_item :: lsp_item where
  "console_item =
     \<lparr>label = ''console'', kind = Some 6, detail = None, documentation = None,
      insertText = None, additionalTextEdits = None, data = None\<rparr>"

definition console_payload :: string where
  \<open>console_payload = ''{"label":"console","kind":6}''\<close>

definition example_parse :: "string \<Rightarrow> lsp_item option" where
  "example_parse s = (if s = console_payload then Some console_item else None)"

text \<open>
  An instance of the helpers: the insert text of a candidate, or else its label, and no
  range replacement.
\<close>

definition example_helpers :: helpers where
  "example_helpers =
     \<lparr>getInsertText = (\<lambda>it. case insertText it of Some t \<Rightarrow> t | None \<Rightarrow> label it),
      isReplace = (\<lambda>it behavior suggest request. False)\<rparr>"

text \<open>The line was \<open>print.c\<close> at the request and reads \<open>print.console\<close> at the confirmation.\<close>

definition example_user_data :: user_data where
  "example_user_data =
     \<lparr>lspitem = console_payload, clientId = 1, offsetEncoding = Utf16, resolvable = False,
      lineOnRequest = ''print.c'', requestCharacter = 7, suggestCharacter = 6\<rparr>"

definition example_confirm_host :: confirm_host where
  "example_confirm_host =
     \<lparr>completed_word = ''console'',
      line_ctx = \<lparr>lc_text = ''print.console'', lc_character = 13\<rparr>,
      confirm_resolve_reply = Inr None,
      confirm_parse = example_parse\<rparr>"

text \<open>Two providers, a normaliser that keeps the word, and the arguments of a cycle.\<close>

definition client_a :: client where
  "client_a =
     \<lparr>client_id = 1,
      provider = \<lparr>triggerCharacters = Some [''.''], resolveProvider = Some True\<rparr>,
      client_offsetEncoding = Utf16\<rparr>"

definition client_b :: client where
  "client_b =
     \<lparr>client_id = 2,
      provider = \<lparr>triggerCharacters = None, resolveProvider = None\<rparr>,
      client_offsetEncoding = Utf8\<rparr>"

definition example_toDdcItem :: normalizer where
  "example_toDdcItem ci lspItem defaults =
     Some \<lparr>word = (case insertText lspItem of Some t \<Rightarrow> t | None \<Rightarrow> label lspItem),
           user_data = None\<rparr>"

definition example_args :: gather_args where
  "example_args =
     \<lparr>arg_input = ''print.c'', arg_isIncomplete = False, completePos = 6, completeStr = ''c'',
      arg_timeout = 2000, sourceParams = default_params\<rparr>"

definition example_cycle :: cycle where
  "example_cycle =
     \<lparr>toDdcItem = example_toDdcItem, cy_lineOnRequest = ''print.c'', cy_cursorLine = 0,
      cy_args = example_args\<rparr>"

definition example_position :: position_params where
  "example_position = \<lparr>textDocument = ''file:///main.ts'', position = (0, 7)\<rparr>"

definition complete_result :: result where
  "complete_result =
     ResultList \<lparr>isIncomplete = False, itemDefaults = None, items = [console_item]\<rparr>"

definition incomplete_result :: result where
  "incomplete_result =
     ResultList \<lparr>isIncomplete = True, itemDefaults = None, items = [console_item]\<rparr>"

definition answers :: "error + result option \<Rightarrow> exchange" where
  "answers r = \<lparr>ex_params = Inr example_position, ex_reply = r\<rparr>"

definition failed_reply :: "error + result option" where
  "failed_reply = Inl (HostError ''request failed'')"

definition two_providers :: "error + result option \<Rightarrow> error + result option \<Rightarrow> (client \<times> exchange) list" where
  "two_providers ra rb = [(client_a, answers ra), (client_b, answers rb)]"

definition console_word :: item where
  "console_word = \<lparr>word = ''console'', user_data = None\<rparr>"

definition stopped_reply :: "error + result option" where
  "stopped_reply = Inl (HostError ''client stopped'')"

text \<open>
  A host whose resolve facility answers with a candidate that has another insert text,
  and a candidate whose list of additional text edits is there and empty.
\<close>

definition resolved_item :: lsp_item where
  "resolved_item = console_item\<lparr>insertText := Some ''console.log''\<rparr>"

definition resolving_host :: confirm_host where
  "resolving_host = example_confirm_host\<lparr>confirm_resolve_reply := Inr (Some resolved_item)\<rparr>"

definition empty_edits_item :: lsp_item where
  "empty_edits_item = console_item\<lparr>additionalTextEdits := Some []\<rparr>"

definition empty_edits_payload :: string where
  \<open>empty_edits_payload = ''{"label":"console","kind":6,"additionalTextEdits":[]}''\<close>

definition empty_edits_host :: confirm_host where
  "empty_edits_host =
     example_confirm_host
       \<lparr>confirm_parse := (\<lambda>s. if s = empty_edits_payload then Some empty_edits_item else None)\<rparr>"

text \<open>A candidate with detail, an import source and plain-text documentation.\<close>

definition documented_item :: lsp_item where
  "documented_item =
     \<lparr>label = ''console'', kind = Some 6, detail = Some ''const console: Console'',
      documentation = Some (DocMarkup \<lparr>mc_kind = PlainText, mc_value = ''The console.''\<rparr>),
      insertText = None, additionalTextEdits = None,
      data = Some (JObject [(''tsc'', JObject [(''source'', JString ''node:console'')])])\<rparr>"

definition documented_word :: item where
  "documented_word =
     \<lparr>word = ''console'',
      user_data = Some (example_user_data\<lparr>lspitem := ''documented''\<rparr>)\<rparr>"

definition documented_host :: preview_host where
  "documented_host =
     \<lparr>preview_resolve_reply = Inr None,
      filetype = ''typescript'',
      parse_snippet = (\<lambda>body. body),
      preview_parse = (\<lambda>s. if s = ''documented'' then Some documented_item else None)\<rparr>"

section \<open>Lemmas about slicing and line splitting\<close>

lemma js_slice_last: "js_slice_from s (- 1) = last_typed s"
proof (cases s rule: rev_cases)
  case Nil
  then show ?thesis by (simp add: js_slice_from_def js_slice_def last_typed_def)
next
  case (snoc ys y)
  then show ?thesis
    by (simp add: js_slice_from_def js_slice_def last_typed_def Let_def max_def)
qed

lemma split_lf_nonempty: "split_lf s \<noteq> []"
  by (induction s) (auto split: list.splits)

lemma splitLines_nonempty: "splitLines s \<noteq> []"
  by (simp add: splitLines_def split_lf_nonempty)

lemma replace_eol_plain_prefix:
  "CR \<notin> set p \<Longrightarrow> replace_eol (p @ rest) = p @ replace_eol rest"
  by (induction p) auto

lemma replace_eol_plain: "CR \<notin> set p \<Longrightarrow> replace_eol p = p"
  using replace_eol_plain_prefix [of p "[]"] by simp

lemma replace_eol_before_lf:
  "\<exists>y. replace_eol (x @ LF # t) = y @ LF # replace_eol t"
proof (induction x rule: replace_eol.induct)
  case 1
  have "LF \<noteq> CR" by (simp add: LF_def CR_def)
  then have "replace_eol ([] @ LF # t) = [] @ LF # replace_eol t" by simp
  then show ?case by blast
next
  case (2 c cs)
  show ?case
  proof (cases "c = CR")
    case False
    with 2 obtain y where "replace_eol (cs @ LF # t) = y @ LF # replace_eol t" by blast
    with False have "replace_eol ((c # cs) @ LF # t) = (c # y) @ LF # replace_eol t" by simp
    then show ?thesis by blast
  next
    case True
    show ?thesis
    proof (cases cs)
      case Nil
      with True have "replace_eol ((c # cs) @ LF # t) = [] @ LF # replace_eol t" by simp
      then show ?thesis by blast
    next
      case (Cons d ds)
      show ?thesis
      proof (cases "d = LF")
        case dl: True
        with 2 True Cons obtain y where "replace_eol (ds @ LF # t) = y @ LF # replace_eol t"
          by blast
        with True Cons dl have "replace_eol ((c # cs) @ LF # t) = (LF # y) @ LF # replace_eol t"
          by simp
        then show ?thesis by blast
      next
        case dl: False
        with 2 True Cons obtain y where "replace_eol (cs @ LF # t) = y @ LF # replace_eol t"
          by blast
        with True Cons dl have "replace_eol ((c # cs) @ LF # t) = (LF # y) @ LF # replace_eol t"
          by simp
        then show ?thesis by blast
      qed
    qed
  qed
qed

lemma split_lf_append: "split_lf (y @ LF # z) = split_lf y @ split_lf z"
proof (induction y)
  case Nil
  show ?case by simp
next
  case (Cons c cs)
  obtain l ls where ls: "split_lf cs = l # ls"
    using split_lf_nonempty [of cs] by (cases "split_lf cs") auto
  with Cons show ?case by simp
qed

lemma split_lf_plain: "LF \<notin> set p \<Longrightarrow> split_lf p = [p]"
  by (induction p) auto

lemma wrapped_first:
  assumes "LF \<notin> set p" and "CR \<notin> set p"
  shows "hd (splitLines (p @ [LF] @ v @ [LF] @ q)) = p"
proof -
  have "LF \<noteq> CR" by (simp add: LF_def CR_def)
  then have "replace_eol (p @ [LF] @ v @ [LF] @ q) = p @ LF # replace_eol (v @ [LF] @ q)"
    using assms(2) by (simp add: replace_eol_plain_prefix)
  then show ?thesis
    using assms(1) by (simp add: splitLines_def split_lf_append split_lf_plain)
qed

lemma wrapped_last:
  assumes "LF \<notin> set q" and "CR \<notin> set q"
  shows "last (splitLines (p @ [LF] @ v @ [LF] @ q)) = q"
proof -
  obtain y where "replace_eol ((p @ [LF] @ v) @ LF # q) = y @ LF # replace_eol q"
    using replace_eol_before_lf by blast
  then have "splitLines (p @ [LF] @ v @ [LF] @ q) = split_lf (y @ LF # q)"
    using assms(2) by (simp add: splitLines_def replace_eol_plain)
  then show ?thesis
    using assms(1) by (simp add: split_lf_append split_lf_plain)
qed

lemma text_open_plain: "LF \<notin> set ''<text>'' \<and> CR \<notin> set ''<text>''"
  by (simp add: LF_def CR_def)

lemma text_close_plain: "LF \<notin> set ''</text>'' \<and> CR \<notin> set ''</text>''"
  by (simp add: LF_def CR_def)

lemma marker_first: "hd (splitLines (''<text>'' @ [LF] @ v @ [LF] @ ''</text>'')) = ''<text>''"
  using text_open_plain by (intro wrapped_first) blast+

lemma marker_last: "last (splitLines (''<text>'' @ [LF] @ v @ [LF] @ ''</text>'')) = ''</text>''"
  using text_close_plain by (intro wrapped_last) blast+

lemma push_detail_eq: "push_detail ft it cs = cs @ spec_detail_section ft it"
  by (simp add: push_detail_def spec_detail_section_def split: option.splits)

lemma push_import_eq:
  "push_import u cs =
     cs @ (if cs \<noteq> [] \<and> spec_import_section u \<noteq> [] then [''---''] else [])
        @ spec_import_section u"
  by (simp add: push_import_def spec_import_section_def split: option.splits)

lemma push_documentation_eq:
  "push_documentation it cs =
     cs @ (if cs \<noteq> [] \<and> spec_documentation_section it \<noteq> [] then [''---''] else [])
        @ spec_documentation_section it"
  by (auto simp: push_documentation_def spec_documentation_section_def splitLines_nonempty
           split: option.splits documentation.splits)

section \<open>Lemmas about the provider callbacks and \<open>Promise.all\<close>\<close>

lemma settle_task_ok:
  "\<not> rejects t \<Longrightarrow> \<exists>s'. settle_task k t s = Inr (contribution k t, s')"
  by (cases "(k, t, s)" rule: settle_task.cases) (auto simp: Let_def)



lemma settle_task_incomplete:
  "settle_task k t s = Inr (its, s') \<Longrightarrow> incomplete s' = (incomplete s \<or> answers_incomplete t)"
  by (cases "(k, t, s)" rule: settle_task.cases) (auto simp: Let_def)



lemma promise_all_ok:
  assumes "\<forall>t \<in> set tasks. \<not> rejects t" and "length settled = length tasks"
  shows "\<exists>s'. promise_all k tasks order settled s =
           (None,
            map (\<lambda>i. if settled ! i = None \<and> i \<in> set order
                      then Some (contribution k (tasks ! i)) else settled ! i)
              [0..<length tasks],
            s', [])"
  using assms(2)
proof (induction order arbitrary: settled s)
  case Nil
  then show ?case by (simp add: map_nth [symmetric] del: map_nth) (metis map_nth)
next
  case (Cons i order)
  show ?case
  proof (cases "i < length tasks \<and> settled ! i = None")
    case True
    then have "\<not> rejects (tasks ! i)" using assms(1) by simp
    then obtain s1 where s1: "settle_task k (tasks ! i) s = Inr (contribution k (tasks ! i), s1)"
      using settle_task_ok by blast
    let ?st = "settled[i := Some (contribution k (tasks ! i))]"
    have len: "length ?st = length tasks" using Cons.prems by simp
    obtain s' where
      "promise_all k tasks order ?st s1 =
         (None,
          map (\<lambda>j. if ?st ! j = None \<and> j \<in> set order
                    then Some (contribution k (tasks ! j)) else ?st ! j)
            [0..<length tasks], s', [])"
      using Cons.IH [OF len] by blast
    moreover have
      "map (\<lambda>j. if ?st ! j = None \<and> j \<in> set order
                    then Some (contribution k (tasks ! j)) else ?st ! j) [0..<length tasks]
       = map (\<lambda>j. if settled ! j = None \<and> j \<in> set (i # order)
                    then Some (contribution k (tasks ! j)) else settled ! j) [0..<length tasks]"
      using True Cons.prems by (auto simp: nth_list_update)
    ultimately show ?thesis using True s1 Cons.prems by simp
  next
    case False
    obtain s' where
      "promise_all k tasks order settled s =
         (None,
          map (\<lambda>j. if settled ! j = None \<and> j \<in> set order
                    then Some (contribution k (tasks ! j)) else settled ! j)
            [0..<length tasks], s', [])"
      using Cons.IH [OF Cons.prems] by blast
    moreover have
      "map (\<lambda>j. if settled ! j = None \<and> j \<in> set order
                    then Some (contribution k (tasks ! j)) else settled ! j) [0..<length tasks]
       = map (\<lambda>j. if settled ! j = None \<and> j \<in> set (i # order)
                    then Some (contribution k (tasks ! j)) else settled ! j) [0..<length tasks]"
      using False by auto
    ultimately show ?thesis using False Cons.prems by auto
  qed
qed

lemma promise_all_all_settle:
  assumes "\<forall>t \<in> set tasks. \<not> rejects t" and "{..<length tasks} \<subseteq> set order"
  shows "\<exists>s'. promise_all k tasks order (replicate (length tasks) None) s =
           (None, map (\<lambda>t. Some (contribution k t)) tasks, s', [])"
proof -
  define st where "st = replicate (length tasks) (None :: item list option)"
  have len: "length st = length tasks" by (simp add: st_def)
  obtain s' where
    "promise_all k tasks order st s =
       (None,
        map (\<lambda>i. if st ! i = None \<and> i \<in> set order
                  then Some (contribution k (tasks ! i)) else st ! i)
          [0..<length tasks], s', [])"
    using promise_all_ok [OF assms(1) len, of k order s] ..
  moreover have
    "map (\<lambda>i. if st ! i = None \<and> i \<in> set order
                  then Some (contribution k (tasks ! i)) else st ! i)
          [0..<length tasks]
     = map (\<lambda>t. Some (contribution k t)) tasks"
    using assms(2) by (intro nth_equalityI) (auto simp: st_def)
  ultimately show ?thesis by (auto simp: st_def)
qed


lemma promise_all_settled:
  assumes "promise_all k tasks order settled s = (err, st, s', rest)"
    and "length settled = length tasks"
  shows "length st = length tasks \<and> (\<forall>i<length tasks. settled ! i \<noteq> None \<longrightarrow> st ! i = settled ! i)"
  using assms
proof (induction order arbitrary: settled s)
  case Nil
  then show ?case by simp
next
  case (Cons j order)
  show ?case
  proof (cases "j < length tasks \<and> settled ! j = None")
    case False
    then have "promise_all k tasks order settled s = (err, st, s', rest)"
      using Cons.prems by auto
    from Cons.IH [OF this Cons.prems(2)] show ?thesis .
  next
    case True
    show ?thesis
    proof (cases "settle_task k (tasks ! j) s")
      case (Inl e)
      then show ?thesis using True Cons.prems by auto
    next
      case (Inr r)
      obtain its s1 where r: "r = (its, s1)" by (cases r)
      have run: "promise_all k tasks order (settled[j := Some its]) s1 = (err, st, s', rest)"
        using True Inr r Cons.prems by simp
      have len: "length (settled[j := Some its]) = length tasks" using Cons.prems by simp
      have ih: "length st = length tasks \<and>
                  (\<forall>i<length tasks. settled[j := Some its] ! i \<noteq> None
                       \<longrightarrow> st ! i = settled[j := Some its] ! i)"
        using Cons.IH [OF run len] .
      have "st ! i = settled ! i" if "i < length tasks" and "settled ! i \<noteq> None" for i
      proof -
        have "i \<noteq> j" using that True by auto
        then have "settled[j := Some its] ! i = settled ! i" by simp
        then show ?thesis using ih that by simp
      qed
      then show ?thesis using ih by blast
    qed
  qed
qed

lemma promise_all_incomplete:
  assumes "promise_all k tasks order settled s = (err, st, s', rest)"
    and "length settled = length tasks"
  shows "incomplete s' =
           (incomplete s \<or>
            (\<exists>i<length tasks. settled ! i = None \<and> st ! i \<noteq> None \<and> answers_incomplete (tasks ! i)))"
  using assms
proof (induction order arbitrary: settled s)
  case Nil
  then show ?case by auto
next
  case (Cons j order)
  show ?case
  proof (cases "j < length tasks \<and> settled ! j = None")
    case False
    then have "promise_all k tasks order settled s = (err, st, s', rest)"
      using Cons.prems by auto
    from Cons.IH [OF this Cons.prems(2)] show ?thesis .
  next
    case True
    show ?thesis
    proof (cases "settle_task k (tasks ! j) s")
      case (Inl e)
      then show ?thesis using True Cons.prems by auto
    next
      case (Inr r)
      obtain its s1 where r: "r = (its, s1)" by (cases r)
      have run: "promise_all k tasks order (settled[j := Some its]) s1 = (err, st, s', rest)"
        using True Inr r Cons.prems by simp
      have len: "length (settled[j := Some its]) = length tasks" using Cons.prems by simp
      have stj: "st ! j \<noteq> None"
        using promise_all_settled [OF run len] True Cons.prems by simp
      have s1: "incomplete s1 = (incomplete s \<or> answers_incomplete (tasks ! j))"
        using Inr r settle_task_incomplete by blast
      have ih: "incomplete s' =
           (incomplete s1 \<or>
            (\<exists>i<length tasks. settled[j := Some its] ! i = None \<and> st ! i \<noteq> None
               \<and> answers_incomplete (tasks ! i)))"
        using Cons.IH [OF run len] .
      show ?thesis
      proof
        assume "incomplete s'"
        with ih s1 consider "incomplete s" | "answers_incomplete (tasks ! j)"
          | i where "i < length tasks" "settled[j := Some its] ! i = None" "st ! i \<noteq> None"
              "answers_incomplete (tasks ! i)"
          by blast
        then show "incomplete s \<or>
            (\<exists>i<length tasks. settled ! i = None \<and> st ! i \<noteq> None \<and> answers_incomplete (tasks ! i))"
        proof cases
          case 1
          then show ?thesis by simp
        next
          case 2
          then show ?thesis using True stj by blast
        next
          case 3
          then have "i \<noteq> j" using True Cons.prems by auto
          then have "settled ! i = None" using 3 by simp
          then show ?thesis using 3 by blast
        qed
      next
        assume "incomplete s \<or>
            (\<exists>i<length tasks. settled ! i = None \<and> st ! i \<noteq> None \<and> answers_incomplete (tasks ! i))"
        then consider "incomplete s"
          | i where "i < length tasks" "settled ! i = None" "st ! i \<noteq> None"
              "answers_incomplete (tasks ! i)"
          by blast
        then show "incomplete s'"
        proof cases
          case 1
          then show ?thesis using ih s1 by simp
        next
          case 2
          show ?thesis
          proof (cases "i = j")
            case True
            then show ?thesis using 2 ih s1 by simp
          next
            case False
            then have "settled[j := Some its] ! i = None" using 2 by simp
            then show ?thesis using 2 ih by blast
          qed
        qed
      qed
    qed
  qed
qed



lemma length_tasks_of: "length (tasks_of k cache ps) = length ps"
  by (simp add: tasks_of_def)




lemma request_timeout:
  "ex_params ex = Inr pp \<Longrightarrow> ex_reply ex = Inl DeadlineError \<Longrightarrow>
     fst (request cl args ex) = Inr None"
  by (simp add: request_def Let_def)

lemma request_answer:
  "ex_params ex = Inr pp \<Longrightarrow> ex_reply ex = Inr r \<Longrightarrow> fst (request cl args ex) = Inr r"
  by (simp add: request_def Let_def)



lemma run_providers_promise_all:
  assumes "run_providers k cache ps order = (err, settled, s)"
  shows "promise_all k (tasks_of k cache ps) order (replicate (length ps) None)
           \<lparr>item_cache = cache, incomplete = False\<rparr>
         = (err, settled, s, pending_callbacks k cache ps order)"
  using assms by (auto simp: run_providers_def pending_callbacks_def split: prod.splits)

lemma promise_all_run_providers:
  assumes "promise_all k (tasks_of k cache ps) order (replicate (length ps) None)
             \<lparr>item_cache = cache, incomplete = False\<rparr> = (err, settled, s, rest)"
  shows "run_providers k cache ps order = (err, settled, s)
       \<and> pending_callbacks k cache ps order = rest"
  using assms by (simp add: run_providers_def pending_callbacks_def)

lemma promise_all_resolved:
  "promise_all k tasks order settled s = (None, st, s', rest) \<Longrightarrow> rest = []"
  by (induction order arbitrary: settled s) (auto split: if_splits sum.splits)



lemma gather_resolved_cache:
  assumes "gather k cache ps order = Some g"
    and "run_providers k cache ps order = (None, settled, s)"
  shows "cache_later g = cache_after g
       \<and> (\<not> gathered_isIncomplete g \<longrightarrow> (\<forall>cid. cache_after g cid = None))
       \<and> (gathered_isIncomplete g \<longrightarrow> cache_after g = item_cache s)"
proof -
  have "pending_callbacks k cache ps order = []"
    using run_providers_promise_all [OF assms(2)] promise_all_resolved by blast
  then show ?thesis
    using assms by (auto simp: gather_def finish_cycle_def clear_cache_def split: if_splits)
qed

section \<open>Definitions unfolded to evaluate the examples\<close>

lemmas confirm_example_defs = default_params_def console_item_def console_payload_def
  example_parse_def example_helpers_def example_user_data_def example_confirm_host_def

lemmas gather_example_defs = client_a_def client_b_def example_toDdcItem_def
  example_args_def example_cycle_def example_position_def complete_result_def
  incomplete_result_def answers_def default_params_def console_item_def
  failed_reply_def stopped_reply_def two_providers_def console_word_def

lemmas gather_defs = gather_def run_providers_def pending_callbacks_def tasks_of_def
  start_task_def request_def finish_cycle_def clear_cache_def normalize_def List.map_filter_def js_slice_from_def js_slice_def Let_def

section \<open>The claims\<close>

subsection \<open>C1: a provider's failure\<close>




subsection \<open>C2: what is stored in the cache\<close>



subsection \<open>C3: clearing the cache\<close>

text \<open>
  C3 is what lines 131 to 133 are there for, and the source misses it in one case. When
  the request of \<open>client_b\<close> fails before the request of \<open>client_a\<close> has settled,
  \<open>gather\<close> returns with \<open>isIncomplete\<close> false and has cleared the cache; the callback
  of \<open>client_a\<close> is still pending, resumes afterwards with a complete answer and stores
  its items in the cleared cache. The lookup of the next cycle finds them.
\<close>

theorem pending_callback_refills_cache:
  "map_option gathered_isIncomplete
     (gather example_cycle Map.empty
        (two_providers (Inr (Some complete_result)) failed_reply) [1, 0]) = Some False
   \<and> map_option (\<lambda>g. cache_after g (client_id client_a))
       (gather example_cycle Map.empty
          (two_providers (Inr (Some complete_result)) failed_reply) [1, 0]) = Some None
   \<and> map_option (\<lambda>g. cache_later g (client_id client_a))
       (gather example_cycle Map.empty
          (two_providers (Inr (Some complete_result)) failed_reply) [1, 0])
       = Some (Some [console_word])"
  by (simp add: gather_defs gather_example_defs)

subsection \<open>C4: the guard of the confirmation\<close>

text \<open>
  C4: when the text of the live line between the recorded suggestion start and the
  cursor is not the accepted word, \<open>onCompleteDone\<close> returns without an error, having
  made the two reads that feed the guard and no other call: nothing changes the buffer.
\<close>

theorem confirm_guard:
  assumes "js_slice (lc_text (line_ctx host)) (suggestCharacter userData)
             (lc_character (line_ctx host)) \<noteq> completed_word host"
  shows "onCompleteDone h host userData ps = (Inr (), [EvalCompletedItemWord, LineContextCreate])
         \<and> \<not> (\<exists>c \<in> set (snd (onCompleteDone h host userData ps)). mutates_buffer c)"
  using assms by (simp add: onCompleteDone_def Let_def)

theorem confirm_guard_witness:
  "js_slice (lc_text (line_ctx (example_confirm_host\<lparr>completed_word := ''console()''\<rparr>)))
     (suggestCharacter example_user_data)
     (lc_character (line_ctx (example_confirm_host\<lparr>completed_word := ''console()''\<rparr>)))
     \<noteq> completed_word (example_confirm_host\<lparr>completed_word := ''console()''\<rparr>)
   \<and> onCompleteDone example_helpers (example_confirm_host\<lparr>completed_word := ''console()''\<rparr>)
        example_user_data default_params
      = (Inr (), [EvalCompletedItemWord, LineContextCreate])"
proof -
  have g: "js_slice (lc_text (line_ctx (example_confirm_host\<lparr>completed_word := ''console()''\<rparr>)))
     (suggestCharacter example_user_data)
     (lc_character (line_ctx (example_confirm_host\<lparr>completed_word := ''console()''\<rparr>)))
     \<noteq> completed_word (example_confirm_host\<lparr>completed_word := ''console()''\<rparr>)"
    by (simp add: example_confirm_host_def example_user_data_def js_slice_def)
  from confirm_guard [OF g] g show ?thesis by blast
qed

subsection \<open>C5: resolving on confirmation\<close>

text \<open>
  C5 as stated does not hold: \<open>onCompleteDone\<close> never reads \<open>resolvable\<close>. With
  \<open>enableResolveItem\<close> set, an item whose \<open>resolvable\<close> flag is false is resolved all
  the same.
\<close>

theorem resolve_when_enabled_counterexample:
  "\<not> ((CallResolve (clientId example_user_data) console_item
          \<in> set (snd (onCompleteDone example_helpers example_confirm_host example_user_data
                        (default_params\<lparr>enableResolveItem := True\<rparr>))))
        = (resolvable example_user_data
           \<and> enableResolveItem (default_params\<lparr>enableResolveItem := True\<rparr>)))"
  by (simp add: onCompleteDone_def fetch_item_def resolve_def needs_confirm_def js_slice_def confirm_example_defs)

text \<open>
  C5, amended: once the guard has passed and the stored payload has been parsed, the
  resolve facility is called exactly when \<open>enableResolveItem\<close> is set, whatever the
  item's \<open>resolvable\<close> flag, and it is called for the item's provider with the
  unresolved candidate. The candidate it answers is the one the decision is made on and
  the one confirmed; when it answers \<open>null\<close>, that is the unresolved candidate, as it is
  when resolution is disabled; when the call fails, \<open>onCompleteDone\<close> fails with its
  error and confirms nothing.
\<close>

theorem resolve_when_enabled:
  assumes "js_slice (lc_text (line_ctx host)) (suggestCharacter userData)
             (lc_character (line_ctx host)) = completed_word host"
    and "confirm_parse host (lspitem userData) = Some unresolvedItem"
  shows "((\<exists>cid x. CallResolve cid x \<in> set (snd (onCompleteDone h host userData ps)))
           = enableResolveItem ps)
       \<and> (enableResolveItem ps \<longrightarrow>
            CallResolve (clientId userData) unresolvedItem
              \<in> set (snd (onCompleteDone h host userData ps)))
       \<and> (enableResolveItem ps \<and> confirm_resolve_reply host = Inr None \<longrightarrow>
            onCompleteDone h host userData ps =
              (Inr (),
               [EvalCompletedItemWord, LineContextCreate,
                CallResolve (clientId userData) unresolvedItem]
               @ (if needs_confirm h (completed_word host) unresolvedItem userData ps
                  then [CmdUndoBreak,
                        CallConfirm unresolvedItem unresolvedItem userData ps,
                        CallSkipNextComplete]
                  else [])))
       \<and> (\<forall>resolvedItem.
            enableResolveItem ps \<and> confirm_resolve_reply host = Inr (Some resolvedItem) \<longrightarrow>
            onCompleteDone h host userData ps =
              (Inr (),
               [EvalCompletedItemWord, LineContextCreate,
                CallResolve (clientId userData) unresolvedItem]
               @ (if needs_confirm h (completed_word host) resolvedItem userData ps
                  then [CmdUndoBreak,
                        CallConfirm resolvedItem unresolvedItem userData ps,
                        CallSkipNextComplete]
                  else [])))
       \<and> (\<forall>e. enableResolveItem ps \<and> confirm_resolve_reply host = Inl e \<longrightarrow>
            onCompleteDone h host userData ps =
              (Inl e,
               [EvalCompletedItemWord, LineContextCreate,
                CallResolve (clientId userData) unresolvedItem]))
       \<and> (\<not> enableResolveItem ps \<longrightarrow>
            onCompleteDone h host userData ps =
              (Inr (),
               [EvalCompletedItemWord, LineContextCreate]
               @ (if needs_confirm h (completed_word host) unresolvedItem userData ps
                  then [CmdUndoBreak,
                        CallConfirm unresolvedItem unresolvedItem userData ps,
                        CallSkipNextComplete]
                  else [])))"
  using assms
  by (auto simp: onCompleteDone_def fetch_item_def resolve_def Let_def
           split: sum.splits option.splits)

theorem resolve_when_enabled_witness:
  "js_slice (lc_text (line_ctx resolving_host)) (suggestCharacter example_user_data)
     (lc_character (line_ctx resolving_host)) = completed_word resolving_host
   \<and> confirm_parse resolving_host (lspitem example_user_data) = Some console_item
   \<and> enableResolveItem (default_params\<lparr>enableResolveItem := True\<rparr>)
   \<and> confirm_resolve_reply resolving_host = Inr (Some resolved_item)
   \<and> onCompleteDone example_helpers resolving_host example_user_data
        (default_params\<lparr>enableResolveItem := True\<rparr>)
      = (Inr (),
         [EvalCompletedItemWord, LineContextCreate, CallResolve 1 console_item,
          CmdUndoBreak,
          CallConfirm resolved_item console_item example_user_data
            (default_params\<lparr>enableResolveItem := True\<rparr>),
          CallSkipNextComplete])"
proof -
  let ?ps = "default_params\<lparr>enableResolveItem := True\<rparr>"
  have g: "js_slice (lc_text (line_ctx resolving_host)) (suggestCharacter example_user_data)
     (lc_character (line_ctx resolving_host)) = completed_word resolving_host"
    by (simp add: resolving_host_def example_confirm_host_def example_user_data_def js_slice_def)
  have p: "confirm_parse resolving_host (lspitem example_user_data) = Some console_item"
    by (simp add: resolving_host_def example_confirm_host_def example_user_data_def
          example_parse_def)
  have e: "enableResolveItem ?ps" by simp
  have r: "confirm_resolve_reply resolving_host = Inr (Some resolved_item)"
    by (simp add: resolving_host_def)
  have c: "clientId example_user_data = 1" by (simp add: example_user_data_def)
  have n: "needs_confirm example_helpers (completed_word resolving_host) resolved_item
             example_user_data ?ps"
    by (simp add: needs_confirm_def example_helpers_def resolved_item_def resolving_host_def
          example_confirm_host_def)
  have "onCompleteDone example_helpers resolving_host example_user_data ?ps
      = (Inr (),
         [EvalCompletedItemWord, LineContextCreate, CallResolve 1 console_item,
          CmdUndoBreak, CallConfirm resolved_item console_item example_user_data ?ps,
          CallSkipNextComplete])"
    using resolve_when_enabled [OF g p, of example_helpers ?ps] e r c n by simp
  with g p e r show ?thesis by blast
qed

subsection \<open>C6: the trigger context of a request\<close>

text \<open>
  C6: a provider that is not served from the cache, once the position parameters have
  arrived, is sent one request, and its context is the specification's: triggered by
  the last typed character when that is one of the provider's trigger characters,
  otherwise a request for incomplete completions when the session continues one,
  otherwise invoked.
\<close>

theorem request_context:
  assumes "cache (client_id cl) = None" and "ex_params ex = Inr ps"
  shows "snd (start_task cache args (cl, ex)) =
           [CallMakePositionParams,
            CallRequest (client_id cl)
              (position_params.extend ps
                 \<lparr>context = spec_trigger_context (triggerCharacters (provider cl))
                              (arg_input args) (arg_isIncomplete args)\<rparr>)]"
  using assms
  by (auto simp: start_task_def request_def js_slice_last spec_trigger_context_def Let_def
           split: sum.splits option.splits)

theorem request_context_witness:
  "Map.empty (client_id client_a) = (None :: item list option)
   \<and> ex_params (answers (Inl DeadlineError)) = Inr example_position
   \<and> snd (start_task Map.empty (example_args\<lparr>arg_input := ''print.''\<rparr>)
             (client_a, answers (Inl DeadlineError)))
       = [CallMakePositionParams,
          CallRequest 1
            (position_params.extend example_position
               \<lparr>context = \<lparr>triggerKind = TriggerCharacter, triggerCharacter = Some ''.''\<rparr>\<rparr>)]"
proof -
  have a: "Map.empty (client_id client_a) = (None :: item list option)" by simp
  have b: "ex_params (answers (Inl DeadlineError)) = Inr example_position"
    by (simp add: answers_def)
  have "snd (start_task Map.empty (example_args\<lparr>arg_input := ''print.''\<rparr>)
             (client_a, answers (Inl DeadlineError)))
       = [CallMakePositionParams,
          CallRequest 1
            (position_params.extend example_position
               \<lparr>context = \<lparr>triggerKind = TriggerCharacter, triggerCharacter = Some ''.''\<rparr>\<rparr>)]"
    using request_context [OF a b, of "example_args\<lparr>arg_input := ''print.''\<rparr>"]
    by (simp add: spec_trigger_context_def last_typed_def client_a_def example_args_def)
  with a b show ?thesis by blast
qed

subsection \<open>C7: a timeout\<close>

text \<open>
  C7: let every request of the cycle settle. For a provider that is not served from the
  cache and whose request ends in \<open>DeadlineError\<close>, \<open>request\<close> returns
  \<open>undefined\<close> instead of throwing, and the provider's callback returns the empty
  list and leaves the cache and the flag as they are. When no request of the cycle fails
  otherwise, \<open>gather\<close> returns, nothing is handed to \<open>printError\<close>, and the items
  are the providers' contributions in the providers' order.
\<close>

theorem timeout_is_silent:
  assumes "{..<length ps} \<subseteq> set order"
  shows "(\<forall>p \<in> set ps. cache (client_id (fst p)) = None
              \<and> (\<exists>pp. ex_params (snd p) = Inr pp)
              \<and> ex_reply (snd p) = Inl DeadlineError \<longrightarrow>
            fst (request (fst p) (cy_args k) (snd p)) = Inr None
            \<and> (\<forall>s. settle_task k (fst (start_task cache (cy_args k) p)) s = Inr ([], s)))
       \<and> ((\<forall>p \<in> set ps. cache (client_id (fst p)) = None \<longrightarrow>
              (\<exists>pp. ex_params (snd p) = Inr pp)
              \<and> (ex_reply (snd p) = Inl DeadlineError \<or> (\<exists>r. ex_reply (snd p) = Inr r))) \<longrightarrow>
           (\<exists>g. gather k cache ps order = Some g
              \<and> printed g = []
              \<and> gathered_items g = concat (map (contribution k) (tasks_of k cache ps))))"
proof (intro conjI ballI impI)
  fix p :: "client \<times> exchange"
  assume late: "cache (client_id (fst p)) = None
              \<and> (\<exists>pp. ex_params (snd p) = Inr pp)
              \<and> ex_reply (snd p) = Inl DeadlineError"
  then obtain pp where "ex_params (snd p) = Inr pp" by blast
  then show r: "fst (request (fst p) (cy_args k) (snd p)) = Inr None"
    using late request_timeout by blast
  show "\<forall>s. settle_task k (fst (start_task cache (cy_args k) p)) s = Inr ([], s)"
    using late r by (simp add: start_task_def)
next
  assume quiet: "\<forall>p \<in> set ps. cache (client_id (fst p)) = None \<longrightarrow>
              (\<exists>pp. ex_params (snd p) = Inr pp)
              \<and> (ex_reply (snd p) = Inl DeadlineError \<or> (\<exists>r. ex_reply (snd p) = Inr r))"
  let ?tasks = "tasks_of k cache ps"
  have ok: "\<forall>t \<in> set ?tasks. \<not> rejects t"
  proof
    fix t assume "t \<in> set ?tasks"
    then obtain p where p: "p \<in> set ps" and t: "t = fst (start_task cache (cy_args k) p)"
      by (auto simp: tasks_of_def)
    show "\<not> rejects t"
    proof (cases "cache (client_id (fst p))")
      case (Some its)
      then show ?thesis using t by (simp add: start_task_def)
    next
      case None
      then obtain pp where "ex_params (snd p) = Inr pp"
        and "ex_reply (snd p) = Inl DeadlineError \<or> (\<exists>r. ex_reply (snd p) = Inr r)"
        using quiet p by blast
      then have "\<exists>r. fst (request (fst p) (cy_args k) (snd p)) = Inr r"
        using request_timeout request_answer by metis
      then show ?thesis using None t by (auto simp: start_task_def)
    qed
  qed
  have cover: "{..<length ?tasks} \<subseteq> set order"
    using assms by (simp add: length_tasks_of)
  obtain s' where
    run: "promise_all k ?tasks order (replicate (length ?tasks) None)
            \<lparr>item_cache = cache, incomplete = False\<rparr>
          = (None, map (\<lambda>t. Some (contribution k t)) ?tasks, s', [])"
    using promise_all_all_settle [OF ok cover] by blast
  have "run_providers k cache ps order
          = (None, map (\<lambda>t. Some (contribution k t)) ?tasks, s')"
    using promise_all_run_providers [of k cache ps order] run
    by (simp add: length_tasks_of)
  then have "gather k cache ps order
          = Some (finish_cycle k ?tasks (map (\<lambda>t. Some (contribution k t)) ?tasks)
                    (pending_callbacks k cache ps order)
                    (concat (map (contribution k) ?tasks)) [] s')"
    by (simp add: gather_def list_all_iff comp_def)
  then show "\<exists>g. gather k cache ps order = Some g
              \<and> printed g = []
              \<and> gathered_items g = concat (map (contribution k) (tasks_of k cache ps))"
    by (simp add: finish_cycle_def)
qed

theorem timeout_is_silent_witness:
  "{..<length (two_providers (Inr (Some complete_result)) (Inl DeadlineError))} \<subseteq> set [1, 0]
   \<and> ex_params (answers (Inr (Some complete_result))) = Inr example_position
   \<and> ex_reply (answers (Inr (Some complete_result))) = Inr (Some complete_result)
   \<and> ex_params (answers (Inl DeadlineError)) = Inr example_position
   \<and> ex_reply (answers (Inl DeadlineError)) = Inl DeadlineError
   \<and> map_option printed
        (gather example_cycle Map.empty
           (two_providers (Inr (Some complete_result)) (Inl DeadlineError)) [1, 0]) = Some []
   \<and> map_option gathered_items
        (gather example_cycle Map.empty
           (two_providers (Inr (Some complete_result)) (Inl DeadlineError)) [1, 0])
       = Some [console_word]"
proof -
  have a: "{..<length (two_providers (Inr (Some complete_result)) (Inl DeadlineError))}
             \<subseteq> set [1, 0]"
    by (auto simp: two_providers_def)
  have p: "ex_params (answers (Inr (Some complete_result))) = Inr example_position
           \<and> ex_reply (answers (Inr (Some complete_result))) = Inr (Some complete_result)
           \<and> ex_params (answers (Inl DeadlineError)) = Inr example_position
           \<and> ex_reply (answers (Inl DeadlineError)) = Inl DeadlineError"
    by (simp add: answers_def)
  have b: "\<forall>p \<in> set (two_providers (Inr (Some complete_result)) (Inl DeadlineError)).
         Map.empty (client_id (fst p)) = (None :: item list option) \<longrightarrow>
           (\<exists>pp. ex_params (snd p) = Inr pp)
           \<and> (ex_reply (snd p) = Inl DeadlineError \<or> (\<exists>r. ex_reply (snd p) = Inr r))"
    using p by (simp add: two_providers_def)
  have c: "map_option printed
        (gather example_cycle Map.empty
           (two_providers (Inr (Some complete_result)) (Inl DeadlineError)) [1, 0]) = Some []
   \<and> map_option gathered_items
        (gather example_cycle Map.empty
           (two_providers (Inr (Some complete_result)) (Inl DeadlineError)) [1, 0])
       = Some [console_word]"
    using timeout_is_silent [OF a, of Map.empty example_cycle] b
    by (simp add: gather_defs gather_example_defs)
  from a p c show ?thesis by blast
qed

subsection \<open>C8: when the native insertion suffices\<close>

text \<open>
  C8 as stated does not hold. The source tests the \<open>additionalTextEdits\<close> member for
  truthiness, and an array is truthy even when it is empty. A candidate whose list of
  additional text edits is empty carries no additional text edit, its insert text is the
  accepted word and no range is to be replaced; with additional text edits enabled
  \<open>onCompleteDone\<close> still makes the undo break and calls \<open>CompletionItem.confirm\<close>.
\<close>

theorem empty_edits_still_confirm:
  "confirm_parse empty_edits_host empty_edits_payload = Some empty_edits_item
   \<and> getInsertText example_helpers empty_edits_item = completed_word empty_edits_host
   \<and> additionalTextEdits empty_edits_item = Some []
   \<and> \<not> isReplace example_helpers empty_edits_item Insert 6 7
   \<and> onCompleteDone example_helpers empty_edits_host
        (example_user_data\<lparr>lspitem := empty_edits_payload\<rparr>)
        (default_params\<lparr>enableAdditionalTextEdit := True\<rparr>)
      = (Inr (),
         [EvalCompletedItemWord, LineContextCreate, CmdUndoBreak,
          CallConfirm empty_edits_item empty_edits_item
            (example_user_data\<lparr>lspitem := empty_edits_payload\<rparr>)
            (default_params\<lparr>enableAdditionalTextEdit := True\<rparr>),
          CallSkipNextComplete])
   \<and> mutates_buffer CmdUndoBreak
   \<and> mutates_buffer
        (CallConfirm empty_edits_item empty_edits_item
           (example_user_data\<lparr>lspitem := empty_edits_payload\<rparr>)
           (default_params\<lparr>enableAdditionalTextEdit := True\<rparr>))"
  by (simp add: onCompleteDone_def fetch_item_def needs_confirm_def js_slice_def Let_def
        empty_edits_host_def empty_edits_item_def empty_edits_payload_def
        confirm_example_defs)

text \<open>
  C8, amended: let the candidate be the one the decision is made on (resolved when
  resolution is enabled). When its insert text is the accepted word, it has no
  \<open>additionalTextEdits\<close> member at all (an empty list counts as carrying edits) or
  additional text edits are disabled, and \<open>isReplace\<close> is false for it,
  \<open>onCompleteDone\<close> returns without an error and makes no call that changes the buffer:
  no undo break, no \<open>CompletionItem.confirm\<close>.
\<close>

theorem native_insertion_suffices:
  assumes "confirm_parse host (lspitem userData) = Some unresolvedItem"
    and "fst (fetch_item host userData ps unresolvedItem) = Inr lspItem"
    and "getInsertText h lspItem = completed_word host"
    and "additionalTextEdits lspItem = None \<or> \<not> enableAdditionalTextEdit ps"
    and "\<not> isReplace h lspItem (confirmBehavior ps)
             (suggestCharacter userData) (requestCharacter userData)"
  shows "fst (onCompleteDone h host userData ps) = Inr ()
       \<and> \<not> (\<exists>c \<in> set (snd (onCompleteDone h host userData ps)). mutates_buffer c)"
proof -
  obtain calls where f: "fetch_item host userData ps unresolvedItem = (Inr lspItem, calls)"
    using assms(2) by (cases "fetch_item host userData ps unresolvedItem") auto
  have calls: "\<forall>c \<in> set calls. \<not> mutates_buffer c"
    using f by (auto simp: fetch_item_def resolve_def split: if_splits sum.splits option.splits)
  have "\<not> needs_confirm h (completed_word host) lspItem userData ps"
    using assms(3,4,5) by (auto simp: needs_confirm_def)
  then show ?thesis
    using assms(1) f calls by (auto simp: onCompleteDone_def Let_def)
qed

theorem native_insertion_suffices_witness:
  "confirm_parse example_confirm_host (lspitem example_user_data) = Some console_item
   \<and> fst (fetch_item example_confirm_host example_user_data default_params console_item)
       = Inr console_item
   \<and> getInsertText example_helpers console_item = completed_word example_confirm_host
   \<and> additionalTextEdits console_item = None
   \<and> \<not> isReplace example_helpers console_item (confirmBehavior default_params)
           (suggestCharacter example_user_data) (requestCharacter example_user_data)
   \<and> fst (onCompleteDone example_helpers example_confirm_host example_user_data default_params)
       = Inr ()
   \<and> \<not> (\<exists>c \<in> set (snd (onCompleteDone example_helpers example_confirm_host
                            example_user_data default_params)). mutates_buffer c)"
proof -
  have p: "confirm_parse example_confirm_host (lspitem example_user_data) = Some console_item"
    by (simp add: example_confirm_host_def example_user_data_def example_parse_def)
  have f: "fst (fetch_item example_confirm_host example_user_data default_params console_item)
       = Inr console_item"
    by (simp add: fetch_item_def default_params_def)
  have t: "getInsertText example_helpers console_item = completed_word example_confirm_host"
    by (simp add: example_helpers_def console_item_def example_confirm_host_def)
  have a: "additionalTextEdits console_item = None" by (simp add: console_item_def)
  have r: "\<not> isReplace example_helpers console_item (confirmBehavior default_params)
           (suggestCharacter example_user_data) (requestCharacter example_user_data)"
    by (simp add: example_helpers_def)
  from native_insertion_suffices [OF p f t disjI1 [OF a] r] p f t a r show ?thesis by blast
qed

subsection \<open>C9: the sections of a preview\<close>

text \<open>
  C9: for an item with a payload that parses and resolves to a candidate whose kind is
  not 15, the preview is a markdown document made of the detail section, the import
  section and the documentation section in this order, with the line \<open>---\<close> before
  the import section exactly when both it and the detail section are there, and before
  the documentation section exactly when it is there and one of the two before it is.
  The documentation section of plain-text markup starts with the line \<open><text>\<close> and
  ends with the line \<open></text>\<close>.
\<close>

theorem preview_sections:
  assumes "user_data i = Some ud"
    and "preview_parse host (lspitem ud) = Some u"
    and "fst (resolve (preview_resolve_reply host) (clientId ud) u) = Inr it"
    and "kind it \<noteq> Some 15"
  shows "fst (getPreviewer h host i) =
           Inr (MarkdownPreviewer
             (spec_detail_section (filetype host) it
              @ (if spec_detail_section (filetype host) it \<noteq> [] \<and> spec_import_section u \<noteq> []
                 then [''---''] else [])
              @ spec_import_section u
              @ (if (spec_detail_section (filetype host) it \<noteq> [] \<or> spec_import_section u \<noteq> [])
                    \<and> spec_documentation_section it \<noteq> []
                 then [''---''] else [])
              @ spec_documentation_section it))
         \<and> (\<forall>m. documentation it = Some (DocMarkup m) \<and> mc_kind m = PlainText
                  \<and> mc_value m \<noteq> [] \<longrightarrow>
                hd (spec_documentation_section it) = ''<text>''
                \<and> last (spec_documentation_section it) = ''</text>'')"
proof -
  obtain calls where r: "resolve (preview_resolve_reply host) (clientId ud) u = (Inr it, calls)"
    using assms(3) by (cases "resolve (preview_resolve_reply host) (clientId ud) u") auto
  have "fst (getPreviewer h host i) =
          Inr (MarkdownPreviewer
                 (push_documentation it (push_import u (push_detail (filetype host) it []))))"
    using assms(1,2,4) r by (simp add: getPreviewer_def Let_def)
  moreover have "\<forall>m. documentation it = Some (DocMarkup m) \<and> mc_kind m = PlainText
                  \<and> mc_value m \<noteq> [] \<longrightarrow>
                hd (spec_documentation_section it) = ''<text>''
                \<and> last (spec_documentation_section it) = ''</text>''"
    by (simp add: spec_documentation_section_def marker_first marker_last del: append.simps)
  ultimately show ?thesis
    by (simp only: push_detail_eq push_import_eq push_documentation_eq)
       (simp del: append.simps)
qed

theorem preview_sections_witness:
  "user_data documented_word = Some (example_user_data\<lparr>lspitem := ''documented''\<rparr>)
   \<and> preview_parse documented_host (lspitem (example_user_data\<lparr>lspitem := ''documented''\<rparr>))
       = Some documented_item
   \<and> fst (resolve (preview_resolve_reply documented_host)
            (clientId (example_user_data\<lparr>lspitem := ''documented''\<rparr>)) documented_item)
       = Inr documented_item
   \<and> kind documented_item \<noteq> Some 15
   \<and> fst (getPreviewer example_helpers documented_host documented_word)
       = Inr (MarkdownPreviewer
               [''```typescript'', ''const console: Console'', ''```'',
                ''---'', ''import from `node:console`'',
                ''---'', ''<text>'', ''The console.'', ''</text>''])"
proof -
  let ?ud = "example_user_data\<lparr>lspitem := ''documented''\<rparr>"
  have a: "user_data documented_word = Some ?ud" by (simp add: documented_word_def)
  have b: "preview_parse documented_host (lspitem ?ud) = Some documented_item"
    by (simp add: documented_host_def)
  have c: "fst (resolve (preview_resolve_reply documented_host) (clientId ?ud) documented_item)
             = Inr documented_item"
    by (simp add: resolve_def documented_host_def)
  have d: "kind documented_item \<noteq> Some 15" by (simp add: documented_item_def)
  have s1: "spec_detail_section (filetype documented_host) documented_item
              = [''```typescript'', ''const console: Console'', ''```'']"
    by (simp add: spec_detail_section_def documented_host_def documented_item_def
          splitLines_def LF_def CR_def)
  have s2: "spec_import_section documented_item = [''import from `node:console`'']"
    by (simp add: spec_import_section_def tsc_source_def documented_item_def)
  have s3: "spec_documentation_section documented_item = [''<text>'', ''The console.'', ''</text>'']"
    by (simp add: spec_documentation_section_def documented_item_def splitLines_def LF_def CR_def)
  have "fst (getPreviewer example_helpers documented_host documented_word)
       = Inr (MarkdownPreviewer
               [''```typescript'', ''const console: Console'', ''```'',
                ''---'', ''import from `node:console`'',
                ''---'', ''<text>'', ''The console.'', ''</text>''])"
    using preview_sections [OF a b c d, of example_helpers]
    by (simp only: s1 s2 s3) simp
  with a b c d show ?thesis by blast
qed

subsection \<open>C10: an item without payload\<close>

text \<open>
  C10: for an item whose \<open>user_data\<close> is undefined, \<open>getPreviewer\<close> returns the
  empty previewer and has made no call: neither the resolve facility nor any other.
\<close>

theorem preview_without_payload:
  assumes "user_data it = None"
  shows "getPreviewer h host it = (Inr EmptyPreviewer, [])"
  using assms by (simp add: getPreviewer_def)

theorem preview_without_payload_witness:
  "user_data console_word = None
   \<and> getPreviewer example_helpers documented_host console_word = (Inr EmptyPreviewer, [])"
proof -
  have a: "user_data console_word = None" by (simp add: console_word_def)
  from preview_without_payload [OF a] a show ?thesis by blast
qed

end
